theory Spec2Isabelle
  imports
    Main
    "HOL-Library.Word"
    "HOL-Library.DAList"
    "HOL-Library.Multiset"
    "HOL-Library.Char_ord"
    "HOL-Library.List_Lexorder"
begin

section \<open>Go values used by the registry\<close>

text \<open>
  Go strings are byte sequences, so they are \<open>string\<close> (a list of 8-bit characters).
  A Go map that the code only reads and writes by key is a partial function; a Go map
  that the code ranges over is a \<open>('k, 'v) alist\<close> (an association list with distinct
  keys): the list order stands for the order in which one \<open>range\<close> loop happens to
  visit the map, which Go leaves unspecified, so every statement about the result of
  such a loop is made up to the order of the list (as a set or a multiset).
\<close>

datatype error = Errorf string | ErrSyntax | ErrRange

subsection \<open>strconv.Itoa and strconv.Atoi (Go standard library, 64-bit int)\<close>

definition digit_char :: "nat \<Rightarrow> char" where
  "digit_char d = char_of (48 + d)"

definition is_digit :: "char \<Rightarrow> bool" where
  "is_digit c = (48 \<le> (of_char c :: nat) \<and> (of_char c :: nat) \<le> 57)"

definition digit_val :: "char \<Rightarrow> nat" where
  "digit_val c = of_char c - 48"

function digits :: "nat \<Rightarrow> string" where
  "digits n = (if n < 10 then [digit_char n] else digits (n div 10) @ [digit_char (n mod 10)])"
  by pat_completeness auto
termination
  by (relation "measure id") auto

declare digits.simps [simp del]

definition Itoa :: "int \<Rightarrow> string" where
  "Itoa i = (if i < 0 then CHR ''-'' # digits (nat (- i)) else digits (nat i))"

definition parse_digits :: "string \<Rightarrow> nat" where
  "parse_digits s = foldl (\<lambda>n c. n * 10 + digit_val c) 0 s"

text \<open>
  \<open>Atoi\<close> is \<open>ParseInt(s, 10, 0)\<close>: an optional sign, then one or more decimal digits.
  A malformed string gives \<open>(0, ErrSyntax)\<close>; a value outside the 64-bit range gives the
  nearest bound and \<open>ErrRange\<close>.
\<close>

definition Atoi :: "string \<Rightarrow> int \<times> error option" where
  "Atoi s =
     (let neg = (s \<noteq> [] \<and> hd s = CHR ''-'');
          body = (if s \<noteq> [] \<and> (hd s = CHR ''-'' \<or> hd s = CHR ''+'') then tl s else s)
      in if body = [] \<or> \<not> list_all is_digit body then (0, Some ErrSyntax)
         else let n = int (parse_digits body)
              in if \<not> neg \<and> n \<ge> 2 ^ 63 then (2 ^ 63 - 1, Some ErrRange)
                 else if neg \<and> n > 2 ^ 63 then (- (2 ^ 63), Some ErrRange)
                 else (if neg then - n else n, None))"

section \<open>members: Member, PeerInfo and the peer-info tags\<close>

record Member =
  member_Name :: string
  member_Address :: string
  member_PeerType :: string
  member_Tags :: "(string \<times> string) list"

record PeerInfo =
  Name :: string
  PeerType :: string
  APIAddr :: string
  APIPort :: "64 word"

text \<open>
  \<open>PeerTypeTag\<close> is a string constant of package members declared outside the given
  sources; it is a parameter of both functions. The map literal of
  \<open>encodePeerInfoTag\<close> has four constant keys, and Go rejects a map literal with a
  repeated constant key at compile time, so the constant differs from the other three.
\<close>

definition encodePeerInfoTag :: "string \<Rightarrow> PeerInfo \<Rightarrow> (string \<rightharpoonup> string)" where
  "encodePeerInfoTag PeerTypeTag info =
     [''name'' \<mapsto> Name info,
      PeerTypeTag \<mapsto> PeerType info,
      ''api_addr'' \<mapsto> APIAddr info,
      ''api_port'' \<mapsto> Itoa (sint (APIPort info))]"

definition PeerInfo_zero :: PeerInfo where
  "PeerInfo_zero = \<lparr>Name = [], PeerType = [], APIAddr = [], APIPort = 0\<rparr>"

text \<open>
  The results \<open>info\<close> and \<open>err\<close> are named: every early \<open>return\<close> hands back the
  fields filled in so far together with the error.
\<close>

definition decodePeerInfoTag :: "string \<Rightarrow> (string \<rightharpoonup> string) \<Rightarrow> PeerInfo \<times> error option" where
  "decodePeerInfoTag PeerTypeTag m =
     (let info = PeerInfo_zero in
      case m ''name'' of
        None \<Rightarrow> (info, Some (Errorf ''missing name''))
      | Some name \<Rightarrow>
          let info = info\<lparr>Name := name\<rparr> in
          (case m PeerTypeTag of
             None \<Rightarrow> (info, Some (Errorf (''missing '' @ PeerTypeTag)))
           | Some peerType \<Rightarrow>
               let info = info\<lparr>PeerType := peerType\<rparr> in
               (case m ''api_port'' of
                  None \<Rightarrow> (info, Some (Errorf ''missing api_port''))
                | Some apiPort \<Rightarrow>
                    (case Atoi apiPort of
                       (n, Some e) \<Rightarrow> (info\<lparr>APIPort := word_of_int n\<rparr>, Some e)
                     | (n, None) \<Rightarrow>
                         let info = info\<lparr>APIPort := word_of_int n\<rparr> in
                         (case m ''api_addr'' of
                            None \<Rightarrow> (info\<lparr>APIAddr := []\<rparr>, Some (Errorf ''missing api_addr''))
                          | Some a \<Rightarrow> (info\<lparr>APIAddr := a\<rparr>, None))))))"

section \<open>registry.Key over a member\<close>

datatype Key = NewMemberKey Member

fun key_Name :: "Key \<Rightarrow> string" where
  "key_Name (NewMemberKey m) = member_Name m"

fun key_Type :: "Key \<Rightarrow> string" where
  "key_Type (NewMemberKey m) = member_PeerType m"

fun key_Address :: "Key \<Rightarrow> string" where
  "key_Address (NewMemberKey m) = member_Address m"

fun key_Tags :: "Key \<Rightarrow> (string \<times> string) list" where
  "key_Tags (NewMemberKey m) = member_Tags m"

section \<open>The hash ring\<close>

text \<open>
  Modelled from the spec: package hashring (\<open>HashRing\<close>, \<open>New\<close>, \<open>Add\<close>, \<open>Remove\<close>,
  \<open>Contains\<close>, \<open>Walk\<close>) is not among the given sources. Following section 4.1 of the
  specification, a ring is a collection of (position, address) pairs kept in ascending
  order of position, ties broken by the address string; an address gets
  \<open>replicationFactor\<close> virtual positions, the hash of the address with the index of the
  virtual node appended; \<open>Walk\<close> visits every virtual position once, in ascending
  order, and stops at the first error of the visitor. The visitor is handed the position
  itself as the \<open>hash\<close> key (the specification's \<open>hashes: position \<rightarrow> address\<close>).
\<close>

record HashRing =
  ring_hashFn :: "string \<Rightarrow> 32 word"
  ring_replicationFactor :: int
  nodes :: "(32 word \<times> string) list"

definition hashring_New :: "(string \<Rightarrow> 32 word) \<Rightarrow> int \<Rightarrow> HashRing" where
  "hashring_New f R = \<lparr>ring_hashFn = f, ring_replicationFactor = R, nodes = []\<rparr>"

definition hashring_Contains :: "HashRing \<Rightarrow> string \<Rightarrow> bool" where
  "hashring_Contains ring a = (a \<in> snd ` set (nodes ring))"

fun ring_insert :: "32 word \<times> string \<Rightarrow> (32 word \<times> string) list \<Rightarrow> (32 word \<times> string) list" where
  "ring_insert p [] = [p]"
| "ring_insert p (q # ns) =
     (if fst p < fst q \<or> (fst p = fst q \<and> snd p \<le> snd q) then p # q # ns
      else q # ring_insert p ns)"

definition virtual_positions :: "HashRing \<Rightarrow> string \<Rightarrow> (32 word \<times> string) list" where
  "virtual_positions ring a =
     map (\<lambda>i. (ring_hashFn ring (a @ Itoa (int i)), a)) [0 ..< nat (ring_replicationFactor ring)]"

definition hashring_Add :: "HashRing \<Rightarrow> string \<Rightarrow> bool \<times> HashRing" where
  "hashring_Add ring a =
     (if hashring_Contains ring a then (False, ring)
      else (True, ring\<lparr>nodes := foldl (\<lambda>ns p. ring_insert p ns) (nodes ring) (virtual_positions ring a)\<rparr>))"

definition hashring_Remove :: "HashRing \<Rightarrow> string \<Rightarrow> bool \<times> HashRing" where
  "hashring_Remove ring a =
     (hashring_Contains ring a, ring\<lparr>nodes := filter (\<lambda>p. snd p \<noteq> a) (nodes ring)\<rparr>)"

text \<open>
  The visitor of \<open>Walk\<close> is a Go closure: what it captures and mutates is the state
  \<open>'s\<close> threaded through the walk.
\<close>

fun walk_nodes :: "(32 word \<times> string) list \<Rightarrow> (32 word \<Rightarrow> string \<Rightarrow> 's \<Rightarrow> error option \<times> 's) \<Rightarrow> 's \<Rightarrow> error option \<times> 's" where
  "walk_nodes [] visit s = (None, s)"
| "walk_nodes (p # ns) visit s =
     (case visit (fst p) (snd p) s of
        (Some e, s') \<Rightarrow> (Some e, s')
      | (None, s') \<Rightarrow> walk_nodes ns visit s')"

definition hashring_Walk :: "HashRing \<Rightarrow> (32 word \<Rightarrow> string \<Rightarrow> 's \<Rightarrow> error option \<times> 's) \<Rightarrow> 's \<Rightarrow> error option \<times> 's" where
  "hashring_Walk ring visit s = walk_nodes (nodes ring) visit s"

section \<open>The registry (pkg/cluster/registry/real.go)\<close>

text \<open>
  The mutex is not modelled: every method holds it from entry to return, so the methods
  are atomic functions of the registry state. A method takes the state and returns its
  result with the state it leaves.
\<close>

record real =
  hashRings :: "string \<rightharpoonup> HashRing"
  keys :: "string \<rightharpoonup> (string, Key) alist"
  hashFn :: "string \<Rightarrow> 32 word"
  replicationFactor :: int

record Info =
  Hashes :: "(32 word, string) alist"
  Keys :: "string \<rightharpoonup> Key list"

definition New :: "(string \<Rightarrow> 32 word) \<Rightarrow> int \<Rightarrow> real" where
  "New f R = \<lparr>hashRings = Map.empty, keys = Map.empty, hashFn = f, replicationFactor = R\<rparr>"

definition Add :: "Key \<Rightarrow> real \<Rightarrow> bool \<times> real" where
  "Add key r =
     (let keyType = key_Type key;
          r = (case hashRings r keyType of
                 None \<Rightarrow> r\<lparr>hashRings := (hashRings r)(keyType \<mapsto> hashring_New (hashFn r) (replicationFactor r))\<rparr>
               | Some _ \<Rightarrow> r);
          addr = key_Address key;
          (res, ring) = hashring_Add (the (hashRings r keyType)) addr;
          r = r\<lparr>hashRings := (hashRings r)(keyType \<mapsto> ring)\<rparr>;
          r = (case keys r addr of
                 None \<Rightarrow> r\<lparr>keys := (keys r)(addr \<mapsto> DAList.empty)\<rparr>
               | Some _ \<Rightarrow> r);
          r = r\<lparr>keys := (keys r)(addr \<mapsto> DAList.update (key_Name key) key (the (keys r addr)))\<rparr>
      in (res, r))"

definition Remove :: "Key \<Rightarrow> real \<Rightarrow> bool \<times> real" where
  "Remove key r =
     (let keyType = key_Type key;
          addr = key_Address key;
          r = (case hashRings r keyType of
                 Some ring \<Rightarrow> r\<lparr>hashRings := (hashRings r)(keyType \<mapsto> snd (hashring_Remove ring addr))\<rparr>
               | None \<Rightarrow> r);
          r = (case keys r addr of
                 Some ks \<Rightarrow> r\<lparr>keys := (keys r)(addr \<mapsto> DAList.delete (key_Name key) ks)\<rparr>
               | None \<Rightarrow> r)
      in (True, r))"

definition Update :: "Key \<Rightarrow> real \<Rightarrow> bool \<times> real" where
  "Update key r =
     (let keyType = key_Type key;
          addr = key_Address key
      in case hashRings r keyType of
           None \<Rightarrow> (False, r)
         | Some ring \<Rightarrow>
             if \<not> hashring_Contains ring addr then (False, r)
             else (case keys r addr of
                     None \<Rightarrow> (False, r)
                   | Some ks \<Rightarrow>
                       let name = key_Name key in
                       (case DAList.lookup ks name of
                          None \<Rightarrow> (False, r)
                        | Some _ \<Rightarrow> (True, r\<lparr>keys := (keys r)(addr \<mapsto> DAList.update name key ks)\<rparr>))))"

definition getKeysByAddress :: "real \<Rightarrow> string \<Rightarrow> Key list" where
  "getKeysByAddress r addr =
     (case keys r addr of
        Some ks \<Rightarrow> foldl (\<lambda>res kv. res @ [snd kv]) [] (DAList.impl_of ks)
      | None \<Rightarrow> [])"

definition Info_zero :: Info where
  "Info_zero = \<lparr>Hashes = DAList.empty, Keys = Map.empty\<rparr>"

definition Info_visit :: "32 word \<Rightarrow> string \<Rightarrow> (32 word, string) alist \<Rightarrow> error option \<times> (32 word, string) alist" where
  "Info_visit hash addr hashes = (None, DAList.update hash addr hashes)"

definition Info_collect :: "real \<Rightarrow> (string \<rightharpoonup> Key list) \<Rightarrow> 32 word \<times> string \<Rightarrow> (string \<rightharpoonup> Key list)" where
  "Info_collect r ks hv =
     (let v = snd hv; k = getKeysByAddress r v
      in if length k > 0 then ks(v \<mapsto> (case ks v of None \<Rightarrow> [] | Some old \<Rightarrow> old) @ k) else ks)"

text \<open>
  \<open>Info_over Walk\<close> is the body of \<open>real.Info\<close> with the \<open>Walk\<close> method it calls on
  the ring as a parameter, since that method is outside the given sources; \<open>Info\<close> is
  the body over the walk of the ring model above.
\<close>

type_synonym hashes_walk =
  "HashRing \<Rightarrow> (32 word \<Rightarrow> string \<Rightarrow> (32 word, string) alist \<Rightarrow> error option \<times> (32 word, string) alist)
     \<Rightarrow> (32 word, string) alist \<Rightarrow> error option \<times> (32 word, string) alist"

definition Info_over :: "hashes_walk \<Rightarrow> real \<Rightarrow> string \<Rightarrow> Info \<times> bool" where
  "Info_over Walk r s =
     (case hashRings r s of
        None \<Rightarrow> (Info_zero, False)
      | Some hashRing \<Rightarrow>
          (case Walk hashRing Info_visit DAList.empty of
             (Some err, _) \<Rightarrow> (Info_zero, False)
           | (None, hashes) \<Rightarrow>
               (\<lparr>Hashes = hashes, Keys = foldl (Info_collect r) Map.empty (DAList.impl_of hashes)\<rparr>, True)))"

definition Info :: "real \<Rightarrow> string \<Rightarrow> Info \<times> bool" where
  "Info r s = Info_over hashring_Walk r s"

section \<open>The event adapter (pkg/registry/api.go)\<close>

text \<open>
  The event types of package members are declared outside the given sources. An
  \<open>Event\<close> is an interface with a \<open>Type()\<close> method; \<open>MemberEvent\<close> is the struct the
  adapter asserts it to, with an \<open>EventType\<close> and the \<open>Members\<close> of the batch, and its
  \<open>Type()\<close> is \<open>EventMember\<close>. \<open>ForeignEvent t\<close> is an event of any other
  implementation, reporting kind \<open>t\<close> (which may be \<open>EventMember\<close>: the type assertion
  then fails). The integer kinds other than the named constants are \<open>EventOther n\<close>
  and \<open>EventMemberOther n\<close>.
\<close>

datatype EventType = EventMember | EventOther nat

datatype MemberEventType =
  EventMemberJoined | EventMemberLeft | EventMemberUpdated | EventMemberOther nat

datatype Event = MemberEvent MemberEventType "Member list" | ForeignEvent EventType

fun event_Type :: "Event \<Rightarrow> EventType" where
  "event_Type (MemberEvent _ _) = EventMember"
| "event_Type (ForeignEvent t) = t"

text \<open>
  The adapter holds a \<open>registry.Registry\<close>, an interface: its three mutating methods
  over the state \<open>'s\<close> of whatever implements it.
\<close>

record 's Registry =
  registry_Add :: "Key \<Rightarrow> 's \<Rightarrow> bool \<times> 's"
  registry_Remove :: "Key \<Rightarrow> 's \<Rightarrow> bool \<times> 's"
  registry_Update :: "Key \<Rightarrow> 's \<Rightarrow> bool \<times> 's"

definition real_Registry :: "real Registry" where
  "real_Registry = \<lparr>registry_Add = Add, registry_Remove = Remove, registry_Update = Update\<rparr>"

definition membersToKeys :: "Member list \<Rightarrow> Key list" where
  "membersToKeys m = map NewMemberKey m"

fun call_each :: "(Key \<Rightarrow> 's \<Rightarrow> bool \<times> 's) \<Rightarrow> Key list \<Rightarrow> 's \<Rightarrow> 's" where
  "call_each fn [] s = s"
| "call_each fn (v # ks) s = call_each fn ks (snd (fn v s))"

definition HandleEvent :: "'s Registry \<Rightarrow> Event \<Rightarrow> 's \<Rightarrow> error option \<times> 's" where
  "HandleEvent e event s =
     (if event_Type event = EventMember then
        (case event of
           ForeignEvent _ \<Rightarrow> (None, s)
         | MemberEvent EventType Members \<Rightarrow>
             (case (case EventType of
                      EventMemberJoined \<Rightarrow> Some (registry_Add e)
                    | EventMemberLeft \<Rightarrow> Some (registry_Remove e)
                    | EventMemberUpdated \<Rightarrow> Some (registry_Update e)
                    | EventMemberOther _ \<Rightarrow> None) of
                None \<Rightarrow> (None, s)
              | Some fn \<Rightarrow> (None, call_each fn (membersToKeys Members) s)))
      else (None, s))"

text \<open>A registry that only records the calls it receives.\<close>

datatype call = CallAdd Key | CallRemove Key | CallUpdate Key

definition recording_Registry :: "call list Registry" where
  "recording_Registry =
     \<lparr>registry_Add = (\<lambda>k log. (True, log @ [CallAdd k])),
      registry_Remove = (\<lambda>k log. (True, log @ [CallRemove k])),
      registry_Update = (\<lambda>k log. (False, log @ [CallUpdate k]))\<rparr>"

section \<open>Sequences of registry operations\<close>

datatype op = OpAdd Key | OpRemove Key | OpUpdate Key

fun op_key :: "op \<Rightarrow> Key" where
  "op_key (OpAdd k) = k"
| "op_key (OpRemove k) = k"
| "op_key (OpUpdate k) = k"

fun apply_op :: "real \<Rightarrow> op \<Rightarrow> real" where
  "apply_op r (OpAdd k) = snd (Add k r)"
| "apply_op r (OpRemove k) = snd (Remove k r)"
| "apply_op r (OpUpdate k) = snd (Update k r)"

definition apply_ops :: "real \<Rightarrow> op list \<Rightarrow> real" where
  "apply_ops r ops = foldl apply_op r ops"

section \<open>Concrete entries and hash functions\<close>

definition poly_hash :: "string \<Rightarrow> 32 word" where
  "poly_hash bs = foldl (\<lambda>h c. h * 31 + of_char c) 0 bs"

definition member_of :: "string \<Rightarrow> string \<Rightarrow> string \<Rightarrow> (string \<times> string) list \<Rightarrow> Key" where
  "member_of n t a tags =
     NewMemberKey \<lparr>member_Name = n, member_Address = a, member_PeerType = t, member_Tags = tags\<rparr>"

definition entry_A :: Key where
  "entry_A = member_of ''nodeA'' ''worker'' ''10.0.0.1:7000'' []"

definition entry_B :: Key where
  "entry_B = member_of ''nodeB'' ''worker'' ''10.0.0.2:7000'' []"

definition entry_B' :: Key where
  "entry_B' = member_of ''nodeB'' ''worker'' ''10.0.0.2:7000'' [(''zone'', ''eu'')]"

definition entry_A2 :: Key where
  "entry_A2 = member_of ''nodeA2'' ''worker'' ''10.0.0.1:7000'' []"

definition entry_A_db :: Key where
  "entry_A_db = member_of ''nodeA'' ''db'' ''10.0.0.1:7000'' [(''role'', ''primary'')]"



text \<open>A ring whose walk aborts with an error before visiting any position.\<close>

definition aborting_Walk :: hashes_walk where
  "aborting_Walk ring visit hashes = (Some (Errorf ''walk aborted''), hashes)"

text \<open>The scenario of the specification: replication factor 2, entries A and B added.\<close>

definition registry_two :: real where
  "registry_two = snd (Add entry_B (snd (Add entry_A (New poly_hash 2))))"

text \<open>One entry of category worker, replication factor 1.\<close>

definition registry_one :: real where
  "registry_one = snd (Add entry_A (New poly_hash 1))"

section \<open>Decimal rendering and parsing\<close>

lemma digit_val_digit_char: "d < 10 \<Longrightarrow> digit_val (digit_char d) = d"
  by (simp add: digit_val_def digit_char_def)

lemma is_digit_digit_char: "d < 10 \<Longrightarrow> is_digit (digit_char d)"
  by (simp add: is_digit_def digit_char_def)

lemma digits_all_digit: "list_all is_digit (digits n)"
proof (induction n rule: digits.induct)
  case (1 n)
  show ?case
  proof (cases "n < 10")
    case True
    then show ?thesis by (subst digits.simps) (simp add: is_digit_digit_char)
  next
    case False
    with 1 show ?thesis by (subst digits.simps) (simp add: is_digit_digit_char)
  qed
qed

lemma digits_nonempty: "digits n \<noteq> []"
  by (subst digits.simps) simp

lemma parse_digits_snoc: "parse_digits (xs @ [c]) = parse_digits xs * 10 + digit_val c"
  by (simp add: parse_digits_def)

lemma parse_digits_digits: "parse_digits (digits n) = n"
proof (induction n rule: digits.induct)
  case (1 n)
  show ?case
  proof (cases "n < 10")
    case True
    then show ?thesis
      by (subst digits.simps) (simp add: parse_digits_def digit_val_digit_char)
  next
    case False
    with 1 have "parse_digits (digits (n div 10)) = n div 10" by simp
    with False show ?thesis
      by (subst digits.simps) (simp add: parse_digits_snoc digit_val_digit_char)
  qed
qed

lemma is_digit_not_sign: "is_digit c \<Longrightarrow> c \<noteq> CHR ''-'' \<and> c \<noteq> CHR ''+''"
  by (auto simp: is_digit_def)

lemma hd_digits_not_sign: "hd (digits n) \<noteq> CHR ''-'' \<and> hd (digits n) \<noteq> CHR ''+''"
proof -
  have "is_digit (hd (digits n))"
    using digits_all_digit [of n] digits_nonempty [of n]
    by (cases "digits n") simp_all
  then show ?thesis by (rule is_digit_not_sign)
qed

lemma Atoi_Itoa:
  assumes "- (2 ^ 63) \<le> i" and "i < 2 ^ 63"
  shows "Atoi (Itoa i) = (i, None)"
proof (cases "i < 0")
  case True
  have "int (parse_digits (digits (nat (- i)))) = - i"
    using True by (simp add: parse_digits_digits)
  with True assms show ?thesis
    by (simp add: Atoi_def Itoa_def Let_def digits_nonempty digits_all_digit)
next
  case False
  have "int (parse_digits (digits (nat i))) = i"
    using False by (simp add: parse_digits_digits)
  with False assms show ?thesis
    using hd_digits_not_sign [of "nat i"]
    by (simp add: Atoi_def Itoa_def Let_def digits_nonempty digits_all_digit)
qed

lemma Atoi_Itoa_sint: "Atoi (Itoa (sint (w :: 64 word))) = (sint w, None)"
proof -
  have "- (2 ^ 63) \<le> sint w" using sint_ge [of w] by simp
  moreover have "sint w < 2 ^ 63" using sint_lt [of w] by simp
  ultimately show ?thesis by (rule Atoi_Itoa)
qed

section \<open>What Info computes\<close>

lemma getKeysByAddress_map:
  "getKeysByAddress r addr = (case keys r addr of Some ks \<Rightarrow> map snd (DAList.impl_of ks) | None \<Rightarrow> [])"
proof -
  have "foldl (\<lambda>res kv. res @ [snd kv]) acc xs = acc @ map snd xs" for acc :: "Key list" and xs :: "(string \<times> Key) list"
    by (induction xs arbitrary: acc) simp_all
  then show ?thesis
    by (simp add: getKeysByAddress_def split: option.splits)
qed

lemma walk_Info_visit:
  "walk_nodes ns Info_visit s = (None, foldl (\<lambda>hs p. DAList.update (fst p) (snd p) hs) s ns)"
  by (induction ns arbitrary: s) (simp_all add: Info_visit_def)

lemma lookup_collected:
  "DAList.lookup (foldl (\<lambda>hs p. DAList.update (fst p) (snd p) hs) s ns) h =
     (case map_of (rev ns) h of Some a \<Rightarrow> Some a | None \<Rightarrow> DAList.lookup s h)"
  by (induction ns arbitrary: s) (auto simp: DAList.lookup_update map_add_def split: option.splits)

lemma alist_mem_lookup: "(k, v) \<in> set (DAList.impl_of al) \<longleftrightarrow> DAList.lookup al k = Some v"
  by (simp add: DAList.lookup.rep_eq)

lemma Info_unfold:
  "Info r s =
     (case hashRings r s of
        None \<Rightarrow> (Info_zero, False)
      | Some hashRing \<Rightarrow>
          (case hashring_Walk hashRing Info_visit DAList.empty of
             (Some err, _) \<Rightarrow> (Info_zero, False)
           | (None, hashes) \<Rightarrow>
               (\<lparr>Hashes = hashes, Keys = foldl (Info_collect r) Map.empty (DAList.impl_of hashes)\<rparr>, True)))"
  by (simp add: Info_def Info_over_def)

lemma Info_found: "snd (Info r s) \<longleftrightarrow> hashRings r s \<noteq> None"
  by (simp add: Info_unfold hashring_Walk_def walk_Info_visit split: option.splits)

lemma Info_Hashes:
  assumes "hashRings r s = Some ring"
  shows "Hashes (fst (Info r s)) = foldl (\<lambda>hs p. DAList.update (fst p) (snd p) hs) DAList.empty (nodes ring)"
  using assms by (simp add: Info_unfold hashring_Walk_def walk_Info_visit)

lemma Info_Hashes_mem:
  assumes "hashRings r s = Some ring"
  shows "(h, a) \<in> set (DAList.impl_of (Hashes (fst (Info r s)))) \<longleftrightarrow> map_of (rev (nodes ring)) h = Some a"
  using assms by (simp add: Info_Hashes alist_mem_lookup lookup_collected split: option.splits)

lemma collect_fold:
  "foldl (Info_collect r) acc hs addr =
     (if filter (\<lambda>p. snd p = addr) hs = [] \<or> getKeysByAddress r addr = [] then acc addr
      else Some ((case acc addr of None \<Rightarrow> [] | Some old \<Rightarrow> old)
                 @ concat (replicate (length (filter (\<lambda>p. snd p = addr) hs)) (getKeysByAddress r addr))))"
proof (induction hs arbitrary: acc)
  case Nil
  then show ?case by simp
next
  case (Cons p hs)
  have step: "Info_collect r acc p addr =
      (if snd p = addr \<and> getKeysByAddress r addr \<noteq> []
       then Some ((case acc addr of None \<Rightarrow> [] | Some old \<Rightarrow> old) @ getKeysByAddress r addr)
       else acc addr)"
    by (simp add: Info_collect_def Let_def)
  have "foldl (Info_collect r) acc (p # hs) addr = foldl (Info_collect r) (Info_collect r acc p) hs addr"
    by simp
  also have "\<dots> =
     (if filter (\<lambda>p. snd p = addr) hs = [] \<or> getKeysByAddress r addr = [] then Info_collect r acc p addr
      else Some ((case Info_collect r acc p addr of None \<Rightarrow> [] | Some old \<Rightarrow> old)
                 @ concat (replicate (length (filter (\<lambda>p. snd p = addr) hs)) (getKeysByAddress r addr))))"
    by (rule Cons.IH)
  also have "\<dots> =
     (if filter (\<lambda>p. snd p = addr) (p # hs) = [] \<or> getKeysByAddress r addr = [] then acc addr
      else Some ((case acc addr of None \<Rightarrow> [] | Some old \<Rightarrow> old)
                 @ concat (replicate (length (filter (\<lambda>p. snd p = addr) (p # hs))) (getKeysByAddress r addr))))"
    unfolding step by (simp split: option.splits)
  finally show ?case .
qed

lemma Info_Keys:
  assumes "hashRings r s = Some ring"
  shows "Keys (fst (Info r s)) addr =
     (if filter (\<lambda>p. snd p = addr) (DAList.impl_of (Hashes (fst (Info r s)))) = [] \<or> getKeysByAddress r addr = [] then None
      else Some (concat (replicate (length (filter (\<lambda>p. snd p = addr) (DAList.impl_of (Hashes (fst (Info r s)))))) (getKeysByAddress r addr))))"
  using assms by (simp add: Info_unfold hashring_Walk_def walk_Info_visit collect_fold)

section \<open>What the ring and the registry operations change\<close>

lemma set_ring_insert: "set (ring_insert p ns) = insert p (set ns)"
  by (induction ns) auto

lemma set_fold_ring_insert: "set (foldl (\<lambda>ns p. ring_insert p ns) ns ps) = set ns \<union> set ps"
  by (induction ps arbitrary: ns) (auto simp: set_ring_insert)

lemma virtual_positions_snd: "p \<in> set (virtual_positions ring a) \<Longrightarrow> snd p = a"
  by (auto simp: virtual_positions_def)

lemma virtual_positions_nonempty: "1 \<le> ring_replicationFactor ring \<Longrightarrow> virtual_positions ring a \<noteq> []"
  by (simp add: virtual_positions_def)

lemma hashring_Add_nodes:
  "set (nodes (snd (hashring_Add ring a))) =
     (if hashring_Contains ring a then set (nodes ring) else set (nodes ring) \<union> set (virtual_positions ring a))"
  by (simp add: hashring_Add_def set_fold_ring_insert)

lemma hashring_Add_factor:
  "ring_replicationFactor (snd (hashring_Add ring a)) = ring_replicationFactor ring"
  by (simp add: hashring_Add_def)

lemma hashring_Add_Contains:
  assumes "1 \<le> ring_replicationFactor ring"
  shows "hashring_Contains (snd (hashring_Add ring a)) a"
proof (cases "hashring_Contains ring a")
  case True
  then show ?thesis by (simp add: hashring_Add_def)
next
  case False
  from virtual_positions_nonempty [OF assms, of a]
  obtain p where p: "p \<in> set (virtual_positions ring a)"
    by (cases "virtual_positions ring a") auto
  then have "snd p = a" by (rule virtual_positions_snd)
  with p False show ?thesis
    unfolding hashring_Contains_def hashring_Add_nodes by force
qed

lemma hashring_Remove_not_Contains: "\<not> hashring_Contains (snd (hashring_Remove ring a)) a"
  by (auto simp: hashring_Remove_def hashring_Contains_def)

lemma Add_hashRings:
  "hashRings (snd (Add e r)) =
     (hashRings r)(key_Type e \<mapsto>
        snd (hashring_Add (case hashRings r (key_Type e) of
                             None \<Rightarrow> hashring_New (hashFn r) (replicationFactor r)
                           | Some ring \<Rightarrow> ring) (key_Address e)))"
  by (simp add: Add_def Let_def split: option.splits prod.splits)

lemma Add_keys:
  "keys (snd (Add e r)) =
     (keys r)(key_Address e \<mapsto>
        DAList.update (key_Name e) e (case keys r (key_Address e) of None \<Rightarrow> DAList.empty | Some ks \<Rightarrow> ks))"
  by (simp add: Add_def Let_def split: option.splits prod.splits)

lemma Remove_hashRings:
  "hashRings (snd (Remove e r)) =
     (case hashRings r (key_Type e) of
        None \<Rightarrow> hashRings r
      | Some ring \<Rightarrow> (hashRings r)(key_Type e \<mapsto> snd (hashring_Remove ring (key_Address e))))"
  by (simp add: Remove_def Let_def split: option.splits)

lemma Remove_keys:
  "keys (snd (Remove e r)) =
     (case keys r (key_Address e) of
        None \<Rightarrow> keys r
      | Some ks \<Rightarrow> (keys r)(key_Address e \<mapsto> DAList.delete (key_Name e) ks))"
  by (simp add: Remove_def Let_def split: option.splits)

lemma Update_hashRings: "hashRings (snd (Update e r)) = hashRings r"
  by (simp add: Update_def Let_def split: option.splits)

lemma Update_keys_other: "a \<noteq> key_Address e \<Longrightarrow> keys (snd (Update e r)) a = keys r a"
  by (simp add: Update_def Let_def split: option.splits)

lemma Info_Hashes_subset:
  assumes "hashRings r s = Some ring"
    and "(h, a) \<in> set (DAList.impl_of (Hashes (fst (Info r s))))"
  shows "(h, a) \<in> set (nodes ring)"
proof -
  from assms have "map_of (rev (nodes ring)) h = Some a"
    by (simp add: Info_Hashes_mem)
  then have "(h, a) \<in> set (rev (nodes ring))" by (rule map_of_SomeD)
  then show ?thesis by simp
qed


lemma unshared_position_last:
  assumes "(h, a) \<in> set ns" and "\<forall>a'. (h, a') \<in> set ns \<longrightarrow> a' = a"
  shows "\<exists>xs ys. ns = xs @ (h, a) # ys \<and> h \<notin> fst ` set ys"
proof -
  from assms(1) have "\<exists>p\<in>set ns. fst p = h" by force
  then have "\<exists>xs p ys. ns = xs @ p # ys \<and> fst p = h \<and> (\<forall>q\<in>set ys. fst q \<noteq> h)"
    by (rule split_list_last_prop)
  then obtain xs p ys where ns: "ns = xs @ p # ys" and p: "fst p = h"
    and later: "\<forall>q\<in>set ys. fst q \<noteq> h"
    by blast
  from ns p have "(h, snd p) \<in> set ns" by force
  with assms(2) have "snd p = a" by blast
  with p have "p = (h, a)" by (simp add: prod_eq_iff)
  moreover from later have "h \<notin> fst ` set ys" by force
  ultimately show ?thesis using ns by blast
qed

lemma filter_snd_empty: "filter (\<lambda>p. snd p = a) xs = [] \<longleftrightarrow> a \<notin> snd ` set xs"
  by (induction xs) auto

lemma apply_op_hashRings_other:
  "key_Type (op_key op) \<noteq> B \<Longrightarrow> hashRings (apply_op r op) B = hashRings r B"
  by (cases op) (simp_all add: Add_hashRings Remove_hashRings Update_hashRings split: option.splits)

lemma apply_op_keys_other:
  "key_Address (op_key op) \<noteq> addr \<Longrightarrow> keys (apply_op r op) addr = keys r addr"
  by (cases op) (simp_all add: Add_keys Remove_keys Update_keys_other split: option.splits)

lemma apply_ops_hashRings_other:
  "\<forall>op\<in>set ops. key_Type (op_key op) \<noteq> B \<Longrightarrow> hashRings (apply_ops r ops) B = hashRings r B"
  unfolding apply_ops_def
  by (induction ops arbitrary: r) (simp_all add: apply_op_hashRings_other)

lemma apply_ops_keys_other:
  "\<forall>op\<in>set ops. key_Address (op_key op) \<noteq> addr \<Longrightarrow> keys (apply_ops r ops) addr = keys r addr"
  unfolding apply_ops_def
  by (induction ops arbitrary: r) (simp_all add: apply_op_keys_other)

lemma Info_same_ring:
  assumes "hashRings r' s = hashRings r s"
  shows "snd (Info r' s) = snd (Info r s) \<and> Hashes (fst (Info r' s)) = Hashes (fst (Info r s))"
proof (cases "hashRings r s")
  case None
  with assms show ?thesis by (simp add: Info_unfold)
next
  case (Some ring)
  with assms have "hashRings r' s = Some ring" by simp
  with Some show ?thesis by (simp add: Info_Hashes Info_found)
qed

lemma Info_same_ring_keys:
  assumes "hashRings r' s = hashRings r s" and "keys r' addr = keys r addr"
  shows "Keys (fst (Info r' s)) addr = Keys (fst (Info r s)) addr"
proof (cases "hashRings r s")
  case None
  with assms show ?thesis by (simp add: Info_unfold)
next
  case (Some ring)
  with assms have r': "hashRings r' s = Some ring" by simp
  have "getKeysByAddress r' addr = getKeysByAddress r addr"
    using assms(2) by (simp add: getKeysByAddress_def)
  moreover have "Hashes (fst (Info r' s)) = Hashes (fst (Info r s))"
    using Info_same_ring [OF assms(1)] by simp
  ultimately show ?thesis
    by (simp add: Info_Keys [OF r'] Info_Keys [OF Some])
qed

section \<open>Remove\<close>

text \<open>
  Claim C5. \<open>Remove\<close> returns true for every entry and every registry state: whether or
  not the category has a ring, whether or not the address is in any ring, and whether or
  not the index holds anything for the entry.
\<close>

theorem Remove_always_true: "fst (Remove key r) = True"
  by (simp add: Remove_def Let_def)

text \<open>Removing from an empty registry, and removing an entry that is present.\<close>

theorem Remove_always_true_witness:
  "fst (Remove entry_A (New poly_hash 2)) = True \<and> fst (Remove entry_A registry_two) = True"
  using Remove_always_true [of entry_A "New poly_hash 2"] Remove_always_true [of entry_A registry_two]
  by simp

section \<open>Peer-info tags\<close>

text \<open>
  Claim C10. Decoding the tags that \<open>encodePeerInfoTag\<close> produces gives back the same
  \<open>PeerInfo\<close> and a nil error, for every name, peer type, address and (64-bit) port.
  The tag name \<open>PeerTypeTag\<close> is any string other than the three literal keys.
\<close>

theorem peer_info_tag_round_trip:
  assumes "PeerTypeTag \<notin> {''name'', ''api_addr'', ''api_port''}"
  shows "decodePeerInfoTag PeerTypeTag (encodePeerInfoTag PeerTypeTag info) = (info, None)"
proof -
  from assms have ne: "''name'' \<noteq> PeerTypeTag" "''api_addr'' \<noteq> PeerTypeTag" "''api_port'' \<noteq> PeerTypeTag"
    "PeerTypeTag \<noteq> ''name''" "PeerTypeTag \<noteq> ''api_addr''" "PeerTypeTag \<noteq> ''api_port''"
    by auto
  show ?thesis
    by (simp add: decodePeerInfoTag_def encodePeerInfoTag_def Let_def Atoi_Itoa_sint PeerInfo_zero_def ne)
qed

text \<open>A peer with a negative port, under the tag name \<open>peer_type\<close>.\<close>

theorem peer_info_tag_round_trip_witness:
  "decodePeerInfoTag ''peer_type'' (encodePeerInfoTag ''peer_type''
      \<lparr>Name = ''n1'', PeerType = ''worker'', APIAddr = ''10.0.0.1'', APIPort = - 7\<rparr>)
    = (\<lparr>Name = ''n1'', PeerType = ''worker'', APIAddr = ''10.0.0.1'', APIPort = - 7\<rparr>, None)"
  using peer_info_tag_round_trip [of "''peer_type''"] by simp

section \<open>Update\<close>

text \<open>
  Claim C4. \<open>Update\<close> returns true exactly when the category has a ring that contains
  the address and the index holds an entry under the address and the name. On success
  the ring map, the hash function and the replication factor are unchanged, the index of
  every other address is unchanged, and under the address only the entry of that name is
  replaced (the set of names stays). When it returns false the whole state is unchanged.
\<close>

theorem Update_precondition_atomicity:
  "(fst (Update key r) \<longleftrightarrow>
      (\<exists>ring. hashRings r (key_Type key) = Some ring \<and> hashring_Contains ring (key_Address key)) \<and>
      (\<exists>ks. keys r (key_Address key) = Some ks \<and> DAList.lookup ks (key_Name key) \<noteq> None))
   \<and> (fst (Update key r) \<longrightarrow>
        hashRings (snd (Update key r)) = hashRings r \<and>
        hashFn (snd (Update key r)) = hashFn r \<and>
        replicationFactor (snd (Update key r)) = replicationFactor r \<and>
        (\<forall>a. a \<noteq> key_Address key \<longrightarrow> keys (snd (Update key r)) a = keys r a) \<and>
        (\<exists>ks ks'. keys r (key_Address key) = Some ks \<and>
                  keys (snd (Update key r)) (key_Address key) = Some ks' \<and>
                  DAList.lookup ks' (key_Name key) = Some key \<and>
                  (\<forall>n. n \<noteq> key_Name key \<longrightarrow> DAList.lookup ks' n = DAList.lookup ks n) \<and>
                  map fst (DAList.impl_of ks') = map fst (DAList.impl_of ks)))
   \<and> (\<not> fst (Update key r) \<longrightarrow> snd (Update key r) = r)"
proof -
  let ?P = "(\<exists>ring. hashRings r (key_Type key) = Some ring \<and> hashring_Contains ring (key_Address key)) \<and>
      (\<exists>ks. keys r (key_Address key) = Some ks \<and> DAList.lookup ks (key_Name key) \<noteq> None)"
  have res: "Update key r =
      (if ?P then (True, r\<lparr>keys := (keys r)(key_Address key \<mapsto>
                      DAList.update (key_Name key) key (the (keys r (key_Address key))))\<rparr>)
       else (False, r))"
    by (auto simp: Update_def Let_def split: option.splits)
  show ?thesis
  proof (cases ?P)
    case False
    have u: "Update key r = (False, r)"
      by (simp only: res False if_False simp_thms)
    from False show ?thesis
      unfolding u by auto
  next
    case True
    then obtain ks where ks: "keys r (key_Address key) = Some ks"
      and present: "DAList.lookup ks (key_Name key) \<noteq> None" by blast
    from present have "key_Name key \<in> fst ` set (DAList.impl_of ks)"
      by (simp add: DAList.lookup.rep_eq map_of_eq_None_iff)
    then have same_keys: "map fst (DAList.impl_of (DAList.update (key_Name key) key ks)) = map fst (DAList.impl_of ks)"
      by (simp add: DAList.update.rep_eq update_keys)
    have u: "Update key r = (True, r\<lparr>keys := (keys r)(key_Address key \<mapsto>
                      DAList.update (key_Name key) key ks)\<rparr>)"
    proof -
      from True have "Update key r = (True, r\<lparr>keys := (keys r)(key_Address key \<mapsto>
                      DAList.update (key_Name key) key (the (keys r (key_Address key))))\<rparr>)"
        by (simp only: res if_True simp_thms)
      then show ?thesis by (simp add: ks)
    qed
    from True ks show ?thesis
      unfolding u by (auto simp: same_keys DAList.lookup_update)
  qed
qed

text \<open>
  In the scenario, updating B with new tags succeeds and leaves the rings alone; updating
  an entry whose name the index does not hold fails and changes nothing.
\<close>

theorem Update_precondition_atomicity_witness:
  "fst (Update entry_B' registry_two) \<and>
   hashRings (snd (Update entry_B' registry_two)) = hashRings registry_two \<and>
   \<not> fst (Update entry_A2 registry_two) \<and>
   snd (Update entry_A2 registry_two) = registry_two"
proof -
  have ok: "fst (Update entry_B' registry_two)" by code_simp
  have ko: "\<not> fst (Update entry_A2 registry_two)" by code_simp
  from ok ko Update_precondition_atomicity [of entry_B' registry_two]
    Update_precondition_atomicity [of entry_A2 registry_two]
  show ?thesis by blast
qed

section \<open>Info\<close>

text \<open>
  Claim C7. Whatever the walk of the ring does, \<open>Info\<close> reports not-found exactly
  when the category has no ring or the walk over the ring with the visitor of \<open>Info\<close>
  returns an error, and in either case the result is the empty \<open>Info\<close> with
  \<open>false\<close>: the two causes give the same result.
\<close>

theorem Info_not_found_collapse:
  "(\<not> snd (Info_over Walk r s) \<longleftrightarrow>
      hashRings r s = None \<or>
      (\<exists>ring. hashRings r s = Some ring \<and> fst (Walk ring Info_visit DAList.empty) \<noteq> None))
   \<and> (\<not> snd (Info_over Walk r s) \<longrightarrow> Info_over Walk r s = (Info_zero, False))"
  by (auto simp: Info_over_def split: option.splits prod.splits)

text \<open>
  Both causes in the scenario: category worker has a ring and its walk aborts; category
  db has no ring, under the aborting walk and under the walk of the ring model. The
  three results are the same.
\<close>

theorem Info_not_found_collapse_witness:
  "hashRings registry_two ''worker'' \<noteq> None \<and>
   Info_over aborting_Walk registry_two ''worker'' = (Info_zero, False) \<and>
   hashRings registry_two ''db'' = None \<and>
   Info_over aborting_Walk registry_two ''db'' = (Info_zero, False) \<and>
   Info registry_two ''db'' = (Info_zero, False)"
proof -
  have worker: "hashRings registry_two ''worker'' \<noteq> None" by code_simp
  then obtain ring where ring: "hashRings registry_two ''worker'' = Some ring" by blast
  have aborted: "fst (aborting_Walk ring Info_visit DAList.empty) \<noteq> None"
    by (simp add: aborting_Walk_def)
  have db: "hashRings registry_two ''db'' = None" by code_simp
  from ring aborted Info_not_found_collapse [of aborting_Walk registry_two "''worker''"]
  have "Info_over aborting_Walk registry_two ''worker'' = (Info_zero, False)" by blast
  moreover from db Info_not_found_collapse [of aborting_Walk registry_two "''db''"]
  have "Info_over aborting_Walk registry_two ''db'' = (Info_zero, False)" by blast
  moreover from db Info_not_found_collapse [of hashring_Walk registry_two "''db''"]
  have "Info registry_two ''db'' = (Info_zero, False)" unfolding Info_def by blast
  ultimately show ?thesis using worker db by blast
qed

text \<open>
  Claim C9. When \<open>Info\<close> reports found, no address is mapped to an empty list in
  \<open>Keys\<close>, and an address among the values of \<open>Hashes\<close> whose index is absent or
  empty has no \<open>Keys\<close> entry at all.
\<close>

theorem Info_Keys_never_empty:
  assumes "Info r s = (info, True)"
  shows "(\<forall>addr. Keys info addr \<noteq> Some []) \<and>
         (\<forall>addr. addr \<in> snd ` set (DAList.impl_of (Hashes info)) \<and>
                 (keys r addr = None \<or> keys r addr = Some DAList.empty) \<longrightarrow> Keys info addr = None)"
proof -
  from assms have found: "snd (Info r s)" and info: "info = fst (Info r s)" by simp_all
  from found obtain ring where ring: "hashRings r s = Some ring"
    by (auto simp: Info_found)
  have "Keys info addr \<noteq> Some []" for addr
    unfolding info Info_Keys [OF ring] by auto
  moreover have "Keys info addr = None"
    if "keys r addr = None \<or> keys r addr = Some DAList.empty" for addr
  proof -
    from that have "getKeysByAddress r addr = []"
      by (auto simp: getKeysByAddress_map DAList.empty.rep_eq)
    then show ?thesis unfolding info Info_Keys [OF ring] by simp
  qed
  ultimately show ?thesis by auto
qed

text \<open>
  A remove in another category deletes the only index entry of an address that category
  worker still has in its ring: the address stays in \<open>Hashes\<close> and has no \<open>Keys\<close>.
\<close>

theorem Info_Keys_never_empty_witness:
  "''10.0.0.1:7000'' \<in> snd ` set (DAList.impl_of (Hashes (fst (Info (snd (Remove entry_A_db registry_one)) ''worker'')))) \<and>
   Keys (fst (Info (snd (Remove entry_A_db registry_one)) ''worker'')) ''10.0.0.1:7000'' = None"
proof -
  let ?r = "snd (Remove entry_A_db registry_one)"
  have "snd (Info ?r ''worker'')" by code_simp
  then have found: "Info ?r ''worker'' = (fst (Info ?r ''worker''), True)"
    by (simp add: prod_eq_iff)
  have mem: "''10.0.0.1:7000'' \<in> snd ` set (DAList.impl_of (Hashes (fst (Info ?r ''worker''))))"
    by code_simp
  have empty: "keys ?r ''10.0.0.1:7000'' = Some DAList.empty"
    by code_simp
  from Info_Keys_never_empty [OF found] mem empty show ?thesis by blast
qed

text \<open>
  Claim C6. When the category of an entry has a ring, after \<open>Remove\<close> that ring no
  longer contains the address of the entry, \<open>Info\<close> for the category still reports
  found, and the address is neither a value of \<open>Hashes\<close> nor a key of \<open>Keys\<close>,
  whatever other names the index holds under that address.
\<close>

theorem Remove_evicts_address:
  assumes "hashRings r (key_Type e) = Some ring"
  shows "\<exists>ring' info.
           hashRings (snd (Remove e r)) (key_Type e) = Some ring' \<and>
           \<not> hashring_Contains ring' (key_Address e) \<and>
           Info (snd (Remove e r)) (key_Type e) = (info, True) \<and>
           key_Address e \<notin> snd ` set (DAList.impl_of (Hashes info)) \<and>
           Keys info (key_Address e) = None"
proof -
  let ?r' = "snd (Remove e r)"
  let ?ring' = "snd (hashring_Remove ring (key_Address e))"
  let ?info = "fst (Info ?r' (key_Type e))"
  have ring': "hashRings ?r' (key_Type e) = Some ?ring'"
    using assms by (simp add: Remove_hashRings)
  have gone: "\<not> hashring_Contains ?ring' (key_Address e)"
    by (rule hashring_Remove_not_Contains)
  have found: "Info ?r' (key_Type e) = (?info, True)"
    using ring' Info_found [of ?r' "key_Type e"] by (simp add: prod_eq_iff)
  have nohash: "key_Address e \<notin> snd ` set (DAList.impl_of (Hashes ?info))"
  proof
    assume "key_Address e \<in> snd ` set (DAList.impl_of (Hashes ?info))"
    then obtain h where "(h, key_Address e) \<in> set (DAList.impl_of (Hashes ?info))" by force
    then have "(h, key_Address e) \<in> set (nodes ?ring')"
      by (rule Info_Hashes_subset [OF ring'])
    with gone show False
      unfolding hashring_Contains_def by force
  qed
  then have "filter (\<lambda>p. snd p = key_Address e) (DAList.impl_of (Hashes ?info)) = []"
    by (simp only: filter_snd_empty not_False_eq_True)
  then have "Keys ?info (key_Address e) = None"
    by (simp add: Info_Keys [OF ring'])
  with ring' gone found nohash show ?thesis by blast
qed

text \<open>Two names under the address of A; removing A evicts the address.\<close>

theorem Remove_evicts_address_witness:
  "\<exists>ring' info.
     hashRings (snd (Remove entry_A (snd (Add entry_A2 registry_two)))) ''worker'' = Some ring' \<and>
     \<not> hashring_Contains ring' ''10.0.0.1:7000'' \<and>
     Info (snd (Remove entry_A (snd (Add entry_A2 registry_two)))) ''worker'' = (info, True) \<and>
     ''10.0.0.1:7000'' \<notin> snd ` set (DAList.impl_of (Hashes info)) \<and>
     Keys info ''10.0.0.1:7000'' = None"
proof -
  have ty: "key_Type entry_A = ''worker''" and ad: "key_Address entry_A = ''10.0.0.1:7000''"
    by (simp_all add: entry_A_def member_of_def)
  have "hashRings (snd (Add entry_A2 registry_two)) ''worker'' \<noteq> None"
    by code_simp
  then obtain ring where "hashRings (snd (Add entry_A2 registry_two)) (key_Type entry_A) = Some ring"
    unfolding ty by blast
  from Remove_evicts_address [OF this] show ?thesis
    unfolding ty ad .
qed




text \<open>
  Claim C2. \<open>Info\<close> ranges over every entry of \<open>Hashes\<close>, one per virtual position,
  and appends the index entries of the address each time. In the scenario of the
  specification (replication factor 2, A and B added) \<open>Hashes\<close> has four positions,
  and \<open>Keys\<close> holds A twice and B twice, not once each.
\<close>

theorem Info_Keys_repeats_per_position:
  "Keys (fst (Info registry_two ''worker'')) ''10.0.0.1:7000'' = Some [entry_A, entry_A] \<and>
   Keys (fst (Info registry_two ''worker'')) ''10.0.0.2:7000'' = Some [entry_B, entry_B] \<and>
   map snd (DAList.impl_of (Hashes (fst (Info registry_two ''worker'')))) =
     [''10.0.0.1:7000'', ''10.0.0.1:7000'', ''10.0.0.2:7000'', ''10.0.0.2:7000'']"
  by code_simp

section \<open>Category isolation\<close>

text \<open>
  Claim C3, amended. A sequence of \<open>Add\<close>, \<open>Remove\<close> and \<open>Update\<close> on entries of
  category \<open>A\<close> leaves, for a different category \<open>B\<close>, the ring, the found flag and
  \<open>Hashes\<close> of \<open>Info\<close> unchanged, and leaves \<open>Keys\<close> unchanged at every address
  that is not the address of one of the operated entries.
\<close>

theorem category_isolation:
  assumes "\<forall>op\<in>set ops. key_Type (op_key op) = A" and "A \<noteq> B"
  shows "hashRings (apply_ops r ops) B = hashRings r B \<and>
         snd (Info (apply_ops r ops) B) = snd (Info r B) \<and>
         Hashes (fst (Info (apply_ops r ops) B)) = Hashes (fst (Info r B)) \<and>
         (\<forall>addr. addr \<notin> key_Address ` op_key ` set ops \<longrightarrow>
            Keys (fst (Info (apply_ops r ops) B)) addr = Keys (fst (Info r B)) addr)"
proof -
  from assms have other: "\<forall>op\<in>set ops. key_Type (op_key op) \<noteq> B" by simp
  then have ring: "hashRings (apply_ops r ops) B = hashRings r B"
    by (rule apply_ops_hashRings_other)
  have "Keys (fst (Info (apply_ops r ops) B)) addr = Keys (fst (Info r B)) addr"
    if "addr \<notin> key_Address ` op_key ` set ops" for addr
  proof -
    from that have "\<forall>op\<in>set ops. key_Address (op_key op) \<noteq> addr" by auto
    then have "keys (apply_ops r ops) addr = keys r addr"
      by (rule apply_ops_keys_other)
    with ring show ?thesis by (rule Info_same_ring_keys)
  qed
  with ring Info_same_ring [OF ring] show ?thesis by simp
qed

text \<open>
  Three operations in category db at the address of A; category worker keeps its
  \<open>Hashes\<close> and its \<open>Keys\<close> at the address of B.
\<close>

theorem category_isolation_witness:
  "Hashes (fst (Info (apply_ops registry_two [OpAdd entry_A_db, OpUpdate entry_A_db, OpRemove entry_A_db]) ''worker''))
     = Hashes (fst (Info registry_two ''worker'')) \<and>
   Keys (fst (Info (apply_ops registry_two [OpAdd entry_A_db, OpUpdate entry_A_db, OpRemove entry_A_db]) ''worker'')) ''10.0.0.2:7000''
     = Keys (fst (Info registry_two ''worker'')) ''10.0.0.2:7000''"
proof -
  let ?ops = "[OpAdd entry_A_db, OpUpdate entry_A_db, OpRemove entry_A_db]"
  have types: "\<forall>op\<in>set ?ops. key_Type (op_key op) = ''db''"
    by (simp add: entry_A_db_def member_of_def)
  have distinct: "''db'' \<noteq> ''worker''" by simp
  have untouched: "''10.0.0.2:7000'' \<notin> key_Address ` op_key ` set ?ops"
    by (simp add: entry_A_db_def member_of_def)
  from category_isolation [OF types distinct, of registry_two] untouched
  show ?thesis by blast
qed

text \<open>
  Claim C3 as stated fails at a shared address and name: the index has no category.
  Adding an entry of category db under the address and name of A replaces what
  \<open>Info\<close> reports for category worker at that address.
\<close>

theorem category_isolation_counterexample:
  "key_Type entry_A_db \<noteq> ''worker'' \<and>
   Keys (fst (Info registry_one ''worker'')) ''10.0.0.1:7000'' = Some [entry_A] \<and>
   Keys (fst (Info (apply_ops registry_one [OpAdd entry_A_db]) ''worker'')) ''10.0.0.1:7000'' = Some [entry_A_db]"
  by code_simp

section \<open>The event adapter\<close>

text \<open>
  Claim C8. \<open>HandleEvent\<close> always returns nil. For a member event it calls, for each
  member of the batch in order, \<open>Add\<close> when the batch is member-joined, \<open>Remove\<close> when
  member-left and \<open>Update\<close> when member-updated, keeping only the state each call
  leaves; for any other kind of member event and for any other event it calls nothing.
\<close>

theorem HandleEvent_dispatch:
  "HandleEvent e event s =
     (None,
      case event of
        MemberEvent EventMemberJoined ms \<Rightarrow> foldl (\<lambda>s m. snd (registry_Add e (NewMemberKey m) s)) s ms
      | MemberEvent EventMemberLeft ms \<Rightarrow> foldl (\<lambda>s m. snd (registry_Remove e (NewMemberKey m) s)) s ms
      | MemberEvent EventMemberUpdated ms \<Rightarrow> foldl (\<lambda>s m. snd (registry_Update e (NewMemberKey m) s)) s ms
      | MemberEvent (EventMemberOther n) ms \<Rightarrow> s
      | ForeignEvent t \<Rightarrow> s)"
proof -
  have loop: "call_each fn (map NewMemberKey ms) s = foldl (\<lambda>s m. snd (fn (NewMemberKey m) s)) s ms"
    for fn :: "Key \<Rightarrow> 's \<Rightarrow> bool \<times> 's" and ms s
    by (induction ms arbitrary: s) simp_all
  show ?thesis
    by (simp add: HandleEvent_def membersToKeys_def loop split: Event.splits MemberEventType.splits)
qed

text \<open>A joined batch of two members, on a registry that records its calls.\<close>

theorem HandleEvent_dispatch_witness:
  "HandleEvent recording_Registry
     (MemberEvent EventMemberJoined [\<lparr>member_Name = ''nodeA'', member_Address = ''10.0.0.1:7000'', member_PeerType = ''worker'', member_Tags = []\<rparr>,
                                     \<lparr>member_Name = ''nodeB'', member_Address = ''10.0.0.2:7000'', member_PeerType = ''worker'', member_Tags = []\<rparr>]) []
     = (None, [CallAdd entry_A, CallAdd entry_B])"
  using HandleEvent_dispatch [of recording_Registry
     "MemberEvent EventMemberJoined [\<lparr>member_Name = ''nodeA'', member_Address = ''10.0.0.1:7000'', member_PeerType = ''worker'', member_Tags = []\<rparr>,
                                     \<lparr>member_Name = ''nodeB'', member_Address = ''10.0.0.2:7000'', member_PeerType = ''worker'', member_Tags = []\<rparr>]" "[]"]
  by (simp add: recording_Registry_def entry_A_def entry_B_def member_of_def)

end
